theory Spec2Isabelle
  imports Main "HOL-Library.Word"
begin

text \<open>
  The Lambda handler of \<open>src/index.mjs\<close>, which converts an uploaded HEIC image to
  JPEG, resizes it and writes it back in place. The storage client, heic-convert and
  sharp are parameters of the model; the functions of the JavaScript runtime that
  decide what the handler does (\<open>decodeURIComponent\<close>, \<open>path.posix.parse\<close>, the
  string methods) are written out after ECMA-262 and Node's \<open>lib/path.js\<close>.
\<close>

section \<open>Values of the JavaScript runtime\<close>

text \<open>
  A JavaScript string is a sequence of UTF-16 code units, a \<open>Buffer\<close> a sequence of
  bytes. String literals of the source are written \<open>js ''...''\<close>.
\<close>

type_synonym code_unit = "16 word"
type_synonym jsstring = "code_unit list"
type_synonym buffer = "8 word list"

definition js :: "string \<Rightarrow> jsstring" where
  "js s = map of_char s"

text \<open>
  Whatever the handler can throw: the runtime's \<open>TypeError\<close> and \<open>URIError\<close>, the
  \<open>Error\<close> that \<open>bodyToBuffer\<close> constructs, and the exceptions of the collaborators
  (the storage client, heic-convert, sharp), which the handler never inspects.
\<close>

datatype js_error = TypeError | URIError | Error string | ServiceException string

subsection \<open>String.prototype.replace, toLowerCase\<close>

definition CHAR_PLUS :: code_unit where "CHAR_PLUS = 0x2B"
definition CHAR_SPACE :: code_unit where "CHAR_SPACE = 0x20"
definition CHAR_PERCENT :: code_unit where "CHAR_PERCENT = 0x25"
definition CHAR_DOT :: code_unit where "CHAR_DOT = 0x2E"
definition CHAR_FORWARD_SLASH :: code_unit where "CHAR_FORWARD_SLASH = 0x2F"

text \<open>\<open>s.replace(/\+/g, " ")\<close>: every plus sign becomes a space.\<close>

definition replace_plus :: "jsstring \<Rightarrow> jsstring" where
  "replace_plus s = map (\<lambda>c. if c = CHAR_PLUS then CHAR_SPACE else c) s"

text \<open>\<open>s.replace('.', '')\<close>: a string pattern replaces its first occurrence only.\<close>

fun replace_dot :: "jsstring \<Rightarrow> jsstring" where
  "replace_dot [] = []"
| "replace_dot (c # cs) = (if c = CHAR_DOT then cs else c # replace_dot cs)"

text \<open>
  \<open>s.toLowerCase()\<close>. The letters A to Z are mapped to a to z. Outside ASCII the
  runtime follows the Unicode case mappings, which the model leaves out (such a code
  unit is kept as it is). The handler only compares lowercased strings with the
  ASCII words \<open>true\<close> and \<open>heic\<close>, and no character outside ASCII has a lowercase
  form made of the letters of these words, so the comparisons come out the same.
\<close>

definition lower_unit :: "code_unit \<Rightarrow> code_unit" where
  "lower_unit c = (if 0x41 \<le> c \<and> c \<le> 0x5A then c + 0x20 else c)"

definition toLowerCase :: "jsstring \<Rightarrow> jsstring" where
  "toLowerCase s = map lower_unit s"

text \<open>
  \<open>s.slice(a, b)\<close>: a negative index counts from the end, both are clamped to the
  string.
\<close>

definition slice :: "jsstring \<Rightarrow> int \<Rightarrow> int \<Rightarrow> jsstring" where
  "slice s a b =
     (let len = int (length s);
          from = (if a < 0 then max (len + a) 0 else min a len);
          to = (if b < 0 then max (len + b) 0 else min b len)
      in take (nat (to - from)) (drop (nat from) s))"

subsection \<open>decodeURIComponent\<close>

text \<open>
  The \<open>Decode\<close> operation of ECMA-262 with an empty set of preserved escapes. An
  escape \<open>%XX\<close> below 0x80 is that code unit; a lead byte announces a UTF-8 sequence
  of two to four escapes, which must be well formed and is written out in UTF-16.
  Everything else throws \<open>URIError\<close>.
\<close>

definition hex_digit :: "code_unit \<Rightarrow> nat option" where
  "hex_digit c =
     (if 0x30 \<le> c \<and> c \<le> 0x39 then Some (unat c - 0x30)
      else if 0x41 \<le> c \<and> c \<le> 0x46 then Some (unat c - 0x41 + 10)
      else if 0x61 \<le> c \<and> c \<le> 0x66 then Some (unat c - 0x61 + 10)
      else None)"

fun ParseHexOctet :: "jsstring \<Rightarrow> nat option" where
  "ParseHexOctet (a # b # _) =
     (case hex_digit a of None \<Rightarrow> None
      | Some h \<Rightarrow> (case hex_digit b of None \<Rightarrow> None | Some l \<Rightarrow> Some (16 * h + l)))"
| "ParseHexOctet _ = None"

definition leading_ones :: "nat \<Rightarrow> nat" where
  "leading_ones B =
     (if B < 0x80 then 0 else if B < 0xC0 then 1 else if B < 0xE0 then 2
      else if B < 0xF0 then 3 else if B < 0xF8 then 4 else 5)"

text \<open>The \<open>n\<close> escapes that continue a sequence, and what is left of the string.\<close>

fun continuation_octets :: "nat \<Rightarrow> jsstring \<Rightarrow> (nat list \<times> jsstring) option" where
  "continuation_octets 0 s = Some ([], s)"
| "continuation_octets (Suc n) (p # a # b # rest) =
     (if p \<noteq> CHAR_PERCENT then None
      else case ParseHexOctet [a, b] of None \<Rightarrow> None
        | Some B \<Rightarrow> (case continuation_octets n rest of None \<Rightarrow> None
            | Some (octets, rest') \<Rightarrow> Some (B # octets, rest')))"
| "continuation_octets (Suc n) _ = None"

definition is_continuation :: "nat \<Rightarrow> bool" where
  "is_continuation b = (0x80 \<le> b \<and> b < 0xC0)"

text \<open>
  The code point of a well-formed UTF-8 sequence: continuation bytes of the form
  10xxxxxx, no overlong form, no surrogate, nothing above U+10FFFF.
\<close>

fun utf8_code_point :: "nat list \<Rightarrow> nat option" where
  "utf8_code_point [b0, b1] =
     (let V = (b0 - 0xC0) * 64 + (b1 - 0x80)
      in if is_continuation b1 \<and> 0x80 \<le> V then Some V else None)"
| "utf8_code_point [b0, b1, b2] =
     (let V = (b0 - 0xE0) * 4096 + (b1 - 0x80) * 64 + (b2 - 0x80)
      in if is_continuation b1 \<and> is_continuation b2 \<and> 0x800 \<le> V
            \<and> \<not> (0xD800 \<le> V \<and> V \<le> 0xDFFF) then Some V else None)"
| "utf8_code_point [b0, b1, b2, b3] =
     (let V = (b0 - 0xF0) * 262144 + (b1 - 0x80) * 4096 + (b2 - 0x80) * 64 + (b3 - 0x80)
      in if is_continuation b1 \<and> is_continuation b2 \<and> is_continuation b3
            \<and> 0x10000 \<le> V \<and> V \<le> 0x10FFFF then Some V else None)"
| "utf8_code_point _ = None"

definition UTF16EncodeCodePoint :: "nat \<Rightarrow> jsstring" where
  "UTF16EncodeCodePoint V =
     (if V \<le> 0xFFFF then [of_nat V]
      else [of_nat ((V - 0x10000) div 1024 + 0xD800),
            of_nat ((V - 0x10000) mod 1024 + 0xDC00)])"

function decodeURIComponent :: "jsstring \<Rightarrow> js_error + jsstring" where
  "decodeURIComponent [] = Inr []"
| "decodeURIComponent (c # cs) =
     (if c \<noteq> CHAR_PERCENT then
        (case decodeURIComponent cs of Inl e \<Rightarrow> Inl e | Inr R \<Rightarrow> Inr (c # R))
      else case ParseHexOctet cs of
        None \<Rightarrow> Inl URIError
      | Some B \<Rightarrow>
          (if leading_ones B = 0 then
             (case decodeURIComponent (drop 2 cs) of
                Inl e \<Rightarrow> Inl e | Inr R \<Rightarrow> Inr (of_nat B # R))
           else if leading_ones B = 1 \<or> leading_ones B > 4 then Inl URIError
           else case continuation_octets (leading_ones B - 1) (drop 2 cs) of
             None \<Rightarrow> Inl URIError
           | Some (octets, rest) \<Rightarrow>
               (case utf8_code_point (B # octets) of
                  None \<Rightarrow> Inl URIError
                | Some V \<Rightarrow>
                    (case decodeURIComponent rest of
                       Inl e \<Rightarrow> Inl e | Inr R \<Rightarrow> Inr (UTF16EncodeCodePoint V @ R)))))"
  by pat_completeness auto
termination
proof (relation "measure length")
  have shorter: "length rest \<le> length s"
    if "continuation_octets n s = Some (octets, rest)" for n s octets rest
    using that
  proof (induction n s arbitrary: octets rest rule: continuation_octets.induct)
    case (2 n p a b rest0)
    then show ?case
      by (fastforce split: if_splits option.splits)
  qed simp_all
  show "wf (measure length)" by simp
  show "(cs, c # cs) \<in> measure length" for c :: code_unit and cs
    by simp
  show "(drop 2 cs, c # cs) \<in> measure length" for c :: code_unit and cs
    by simp
  show "(rest, c # cs) \<in> measure length"
    if "continuation_octets (leading_ones B - 1) (drop 2 cs) = Some x2"
      and "(octets, rest) = x2"
    for c :: code_unit and cs B x2 octets rest
  proof -
    from that have "length rest \<le> length (drop 2 cs)"
      using shorter by metis
    then show ?thesis by simp
  qed
qed

section \<open>path.posix.parse\<close>

text \<open>
  The parser of Node's \<open>path\<close> module: one backward scan over the string that finds
  the end of the last segment (trailing slashes set aside), the slash before it and
  its last dot, then cuts the string at these indices. Indices are integers, with
  \<open>-1\<close> for "not seen yet", as in the library. The library's variable \<open>end\<close> is
  \<open>endPart\<close> here.
\<close>

record parsed_path =
  root :: jsstring
  dir :: jsstring
  base :: jsstring
  ext :: jsstring
  name :: jsstring

record scan =
  startDot :: int
  startPart :: int
  endPart :: int
  matchedSlash :: bool
  preDotState :: int

text \<open>
  The loop \<open>for (; i >= start; --i)\<close>. A slash met after the segment has begun sets
  \<open>startPart\<close> and leaves the loop; any other slash is skipped.
\<close>

function parse_scan :: "jsstring \<Rightarrow> int \<Rightarrow> int \<Rightarrow> scan \<Rightarrow> scan" where
  "parse_scan path start i st =
     (if i < start then st
      else if path ! nat i = CHAR_FORWARD_SLASH then
        (if \<not> matchedSlash st then st\<lparr>startPart := i + 1\<rparr>
         else parse_scan path start (i - 1) st)
      else
        parse_scan path start (i - 1)
          (let st1 = (if endPart st = -1
                      then st\<lparr>matchedSlash := False, endPart := i + 1\<rparr> else st)
           in if path ! nat i = CHAR_DOT then
                (if startDot st1 = -1 then st1\<lparr>startDot := i\<rparr>
                 else if preDotState st1 \<noteq> 1 then st1\<lparr>preDotState := 1\<rparr>
                 else st1)
              else if startDot st1 \<noteq> -1 then st1\<lparr>preDotState := -1\<rparr>
              else st1))"
  by pat_completeness auto
termination
  by (relation "measure (\<lambda>(path, start, i, st). nat (i - start + 1))") auto

declare parse_scan.simps [simp del]

definition posix_parse :: "jsstring \<Rightarrow> parsed_path" where
  "posix_parse path =
     (let ret = \<lparr>root = [], dir = [], base = [], ext = [], name = []\<rparr>
      in if length path = 0 then ret
      else
        let isAbsolute = (path ! 0 = CHAR_FORWARD_SLASH);
            ret = (if isAbsolute then ret\<lparr>root := [CHAR_FORWARD_SLASH]\<rparr> else ret);
            start = (if isAbsolute then 1 else 0);
            st = parse_scan path start (int (length path) - 1)
                   \<lparr>startDot = -1, startPart = 0, endPart = -1,
                    matchedSlash = True, preDotState = 0\<rparr>;
            ret =
              (if endPart st \<noteq> -1 then
                 (let start = (if startPart st = 0 \<and> isAbsolute then 1 else startPart st)
                  in if startDot st = -1 \<or> preDotState st = 0
                        \<or> (preDotState st = 1 \<and> startDot st = endPart st - 1
                            \<and> startDot st = startPart st + 1)
                     then ret\<lparr>base := slice path start (endPart st),
                              name := slice path start (endPart st)\<rparr>
                     else ret\<lparr>name := slice path start (startDot st),
                              base := slice path start (endPart st),
                              ext := slice path (startDot st) (endPart st)\<rparr>)
               else ret)
        in if startPart st > 0 then ret\<lparr>dir := slice path 0 (startPart st - 1)\<rparr>
           else if isAbsolute then ret\<lparr>dir := [CHAR_FORWARD_SLASH]\<rparr>
           else ret)"

section \<open>The storage service and the image libraries\<close>

text \<open>
  The notification: \<open>event.Records[0].s3.bucket.name\<close> and
  \<open>event.Records[0].s3.object.key\<close>. \<open>Records\<close> may be missing.
\<close>

record s3_record =
  bucket_name :: jsstring
  object_key :: jsstring

record event =
  Records :: "s3_record list option"

text \<open>
  A byte source that hands out its chunks and then ends, or fails after some of them.
\<close>

record byte_source =
  chunks :: "buffer list"
  failure :: "js_error option"

text \<open>
  The \<open>Body\<close> of a fetched object, seen through the three methods
  \<open>bodyToBuffer\<close> probes: \<open>read\<close> (a Node stream, iterated with \<open>for await\<close>),
  \<open>getReader\<close> (a web stream) and \<open>transformToByteArray\<close>. A body may offer
  several of them, or none.
\<close>

record s3_body =
  body_read :: "byte_source option"
  body_getReader :: "byte_source option"
  body_transformToByteArray :: "(js_error + buffer) option"

record head_output =
  head_Metadata :: "(jsstring \<rightharpoonup> jsstring) option"

record get_output =
  get_Body :: "s3_body option"

record put_input =
  put_Bucket :: jsstring
  put_Key :: jsstring
  put_Body :: buffer
  put_ContentType :: jsstring
  put_Metadata :: "jsstring \<rightharpoonup> jsstring"

datatype s3_command =
  HeadObjectCommand jsstring jsstring
| GetObjectCommand jsstring jsstring
| PutObjectCommand put_input

record heic_input =
  heic_buffer :: buffer
  heic_format :: string
  heic_quality :: nat

text \<open>
  A sharp pipeline as the handler builds it: the input buffer, the JPEG quality if
  \<open>.jpeg\<close> was called, the width if \<open>.resize\<close> was called.
\<close>

record sharp_instance =
  sharp_input :: buffer
  sharp_jpeg :: "nat option"
  sharp_resize :: "nat option"

text \<open>
  What the collaborators answer. Each is asked at most once in a run, so an answer
  depends on the request only.
\<close>

record env =
  s3_HeadObject :: "jsstring \<Rightarrow> jsstring \<Rightarrow> js_error + head_output"
  s3_GetObject :: "jsstring \<Rightarrow> jsstring \<Rightarrow> js_error + get_output"
  s3_PutObject :: "put_input \<Rightarrow> js_error + unit"
  heicConvert :: "heic_input \<Rightarrow> js_error + buffer"
  sharp_toBuffer :: "sharp_instance \<Rightarrow> js_error + buffer"

section \<open>bodyToBuffer\<close>

text \<open>
  Both loops push the chunks in order until the source ends; a source that fails
  makes the \<open>await\<close> throw.
\<close>

fun collect_chunks :: "buffer list \<Rightarrow> js_error option \<Rightarrow> buffer list \<Rightarrow> js_error + buffer list" where
  "collect_chunks [] None acc = Inr acc"
| "collect_chunks [] (Some e) acc = Inl e"
| "collect_chunks (chunk # rest) f acc = collect_chunks rest f (acc @ [chunk])"

definition bodyToBuffer :: "s3_body option \<Rightarrow> js_error + buffer" where
  "bodyToBuffer Body =
     (case Body of
        None \<Rightarrow> Inl (Error ''Unsupported S3 Body type'')
      | Some b \<Rightarrow>
          (case body_read b of
             Some src \<Rightarrow>
               (case collect_chunks (chunks src) (failure src) [] of
                  Inl e \<Rightarrow> Inl e | Inr cs \<Rightarrow> Inr (concat cs))
           | None \<Rightarrow>
               (case body_getReader b of
                  Some src \<Rightarrow>
                    (case collect_chunks (chunks src) (failure src) [] of
                       Inl e \<Rightarrow> Inl e | Inr cs \<Rightarrow> Inr (concat cs))
                | None \<Rightarrow>
                    (case body_transformToByteArray b of
                       Some (Inl e) \<Rightarrow> Inl e
                     | Some (Inr arr) \<Rightarrow> Inr arr
                     | None \<Rightarrow> Inl (Error ''Unsupported S3 Body type'')))))"

section \<open>The handler\<close>

text \<open>\<open>a || b\<close> on strings that may be undefined: the first one defined and not empty.\<close>

definition or_else :: "jsstring option \<Rightarrow> jsstring option \<Rightarrow> jsstring option" where
  "or_else a b = (case a of Some (c # cs) \<Rightarrow> Some (c # cs) | _ \<Rightarrow> b)"

text \<open>
  Lines 47 and 48: the flag read from the metadata of a HeadObject answer.
\<close>

definition processed :: "head_output \<Rightarrow> bool" where
  "processed head =
     (let meta = (case head_Metadata head of None \<Rightarrow> Map.empty | Some m \<Rightarrow> m)
      in toLowerCase
           (case or_else (or_else (meta (js ''image-processed'')) (meta (js ''Image-Processed'')))
                   (Some [])
            of Some v \<Rightarrow> v | None \<Rightarrow> [])
         = js ''true'')"

text \<open>Lines 60 to 64: the parts of the key.\<close>

definition file_ext :: "jsstring \<Rightarrow> jsstring" where
  "file_ext srcKey = replace_dot (ext (posix_parse srcKey))"

definition imageType :: "jsstring \<Rightarrow> jsstring" where
  "imageType srcKey = toLowerCase (file_ext srcKey)"

definition allowlist :: "jsstring list" where
  "allowlist = [js ''heic'']"

text \<open>Line 108.\<close>

definition outputFiletype :: "jsstring \<Rightarrow> jsstring" where
  "outputFiletype t =
     (if t = js ''heic'' then js ''jpg'' else if t = js ''jpg'' then js ''jpeg'' else t)"

definition put_request :: "jsstring \<Rightarrow> jsstring \<Rightarrow> buffer \<Rightarrow> jsstring \<Rightarrow> put_input" where
  "put_request srcBucket srcKey resizedBuffer t =
     \<lparr>put_Bucket = srcBucket, put_Key = srcKey, put_Body = resizedBuffer,
      put_ContentType = js ''image/'' @ outputFiletype t,
      put_Metadata =
        [js ''image-processed'' \<mapsto> js ''true'',
         js ''processed-width'' \<mapsto> js ''1000'',
         js ''original-ext'' \<mapsto> t,
         js ''output-format'' \<mapsto> outputFiletype t]\<rparr>"

definition status_message :: "jsstring \<Rightarrow> jsstring \<Rightarrow> jsstring \<Rightarrow> jsstring" where
  "status_message srcBucket srcKey t =
     js ''Processed and overwritten '' @ srcBucket @ js ''/'' @ srcKey
       @ js '' (format: '' @ outputFiletype t @ js '')''"

text \<open>
  A run yields what the promise settles to (\<open>Inl\<close> a rejection, \<open>Inr None\<close> for
  \<open>undefined\<close>, \<open>Inr (Some s)\<close> for a string) and the commands sent to the storage
  service, in order. Console output is not part of the model.

  Lines 58 to 128, the second \<open>try\<close> block; its \<open>catch\<close> rethrows.
\<close>

definition transform :: "env \<Rightarrow> jsstring \<Rightarrow> jsstring \<Rightarrow> (js_error + jsstring option) \<times> s3_command list" where
  "transform E srcBucket srcKey =
     (if imageType srcKey \<notin> set allowlist then (Inr None, [])
      else case s3_GetObject E srcBucket srcKey of
        Inl e \<Rightarrow> (Inl e, [GetObjectCommand srcBucket srcKey])
      | Inr out \<Rightarrow>
          (case bodyToBuffer (get_Body out) of
             Inl e \<Rightarrow> (Inl e, [GetObjectCommand srcBucket srcKey])
           | Inr contentBuffer \<Rightarrow>
               (case (if imageType srcKey = js ''heic''
                      then heicConvert E \<lparr>heic_buffer = contentBuffer,
                             heic_format = ''JPEG'', heic_quality = 1\<rparr>
                      else Inr contentBuffer) of
                  Inl e \<Rightarrow> (Inl e, [GetObjectCommand srcBucket srcKey])
                | Inr workingBuffer \<Rightarrow>
                    (let sharpInstance =
                           \<lparr>sharp_input = workingBuffer, sharp_jpeg = None, sharp_resize = None\<rparr>;
                         sharpInstance =
                           (if imageType srcKey = js ''heic''
                            then sharpInstance\<lparr>sharp_jpeg := Some 100\<rparr> else sharpInstance)
                     in case sharp_toBuffer E (sharpInstance\<lparr>sharp_resize := Some 1000\<rparr>) of
                          Inl e \<Rightarrow> (Inl e, [GetObjectCommand srcBucket srcKey])
                        | Inr resizedBuffer \<Rightarrow>
                            (let request = put_request srcBucket srcKey resizedBuffer
                                             (imageType srcKey)
                             in case s3_PutObject E request of
                                  Inl e \<Rightarrow>
                                    (Inl e, [GetObjectCommand srcBucket srcKey,
                                             PutObjectCommand request])
                                | Inr putResult \<Rightarrow>
                                    (Inr (Some (status_message srcBucket srcKey
                                                  (imageType srcKey))),
                                     [GetObjectCommand srcBucket srcKey,
                                      PutObjectCommand request]))))))"

text \<open>
  Lines 40 to 56, then the block above. Reading \<open>Records[0]\<close> of a missing or empty
  \<open>Records\<close> throws a \<open>TypeError\<close>; a failed HeadObject is caught and the run goes on.
\<close>

definition handler :: "env \<Rightarrow> event \<Rightarrow> (js_error + jsstring option) \<times> s3_command list" where
  "handler E ev =
     (case Records ev of
        None \<Rightarrow> (Inl TypeError, [])
      | Some [] \<Rightarrow> (Inl TypeError, [])
      | Some (record # _) \<Rightarrow>
          (let srcBucket = bucket_name record
           in case decodeURIComponent (replace_plus (object_key record)) of
                Inl e \<Rightarrow> (Inl e, [])
              | Inr srcKey \<Rightarrow>
                  (if (case s3_HeadObject E srcBucket srcKey of
                         Inl e \<Rightarrow> False | Inr head \<Rightarrow> processed head)
                   then (Inr None, [HeadObjectCommand srcBucket srcKey])
                   else (case transform E srcBucket srcKey of
                           (result, sent) \<Rightarrow>
                             (result, HeadObjectCommand srcBucket srcKey # sent)))))"

section \<open>Re-joining the parts of a key\<close>

text \<open>
  The directory followed by a separator when it is not empty, the base name, and the
  extension after a dot when it is not empty.
\<close>

definition rejoin :: "jsstring \<Rightarrow> jsstring" where
  "rejoin srcKey =
     (let parsed = posix_parse srcKey
      in (if dir parsed = [] then [] else dir parsed @ [CHAR_FORWARD_SLASH])
         @ name parsed
         @ (if file_ext srcKey = [] then [] else CHAR_DOT # file_ext srcKey))"

section \<open>The output format in the words of the specification\<close>


section \<open>Sample runs\<close>

definition sample_event :: event where
  "sample_event =
     \<lparr>Records = Some [\<lparr>bucket_name = js ''photos'', object_key = js ''photo+name.HEIC''\<rparr>]\<rparr>"

definition png_event :: event where
  "png_event =
     \<lparr>Records = Some [\<lparr>bucket_name = js ''photos'', object_key = js ''diagram.png''\<rparr>]\<rparr>"

definition sample_body :: s3_body where
  "sample_body =
     \<lparr>body_read = Some \<lparr>chunks = [[1, 2], [3]], failure = None\<rparr>,
      body_getReader = None, body_transformToByteArray = None\<rparr>"

text \<open>
  A storage service and libraries that always succeed: the object carries no metadata,
  the conversion prepends a byte, the resize keeps two bytes.
\<close>

definition sample_env :: env where
  "sample_env =
     \<lparr>s3_HeadObject = (\<lambda>b k. Inr \<lparr>head_Metadata = None\<rparr>),
      s3_GetObject = (\<lambda>b k. Inr \<lparr>get_Body = Some sample_body\<rparr>),
      s3_PutObject = (\<lambda>p. Inr ()),
      heicConvert = (\<lambda>i. Inr (255 # heic_buffer i)),
      sharp_toBuffer = (\<lambda>s. Inr (take 2 (sharp_input s)))\<rparr>"

definition flagged_meta :: "jsstring \<rightharpoonup> jsstring" where
  "flagged_meta = [js ''Image-Processed'' \<mapsto> js ''TRUE'']"

definition shadowed_meta :: "jsstring \<rightharpoonup> jsstring" where
  "shadowed_meta =
     [js ''image-processed'' \<mapsto> js ''false'', js ''Image-Processed'' \<mapsto> js ''true'']"

section \<open>Evaluating the model\<close>

text \<open>
  The shape of a run that has a first record and a key that decodes, and the outcomes
  of the second block.
\<close>

lemma handler_run:
  assumes "Records ev = Some (r # rest)"
    and "decodeURIComponent (replace_plus (object_key r)) = Inr srcKey"
  shows "handler E ev =
    (if (case s3_HeadObject E (bucket_name r) srcKey of Inl e \<Rightarrow> False | Inr head \<Rightarrow> processed head)
     then (Inr None, [HeadObjectCommand (bucket_name r) srcKey])
     else (fst (transform E (bucket_name r) srcKey),
           HeadObjectCommand (bucket_name r) srcKey # snd (transform E (bucket_name r) srcKey)))"
  using assms by (simp add: handler_def Let_def case_prod_beta)

lemma transform_unsupported:
  "imageType srcKey \<notin> set allowlist \<Longrightarrow> transform E b srcKey = (Inr None, [])"
  by (simp add: transform_def)

lemma transform_cases:
  "transform E b k = (Inr None, []) \<and> imageType k \<noteq> js ''heic''
   \<or> (\<exists>e. transform E b k = (Inl e, [GetObjectCommand b k]) \<and> imageType k = js ''heic'' \<and>
        (s3_GetObject E b k = Inl e
         \<or> (\<exists>out. s3_GetObject E b k = Inr out \<and>
              (bodyToBuffer (get_Body out) = Inl e
               \<or> (\<exists>contentBuffer. bodyToBuffer (get_Body out) = Inr contentBuffer \<and>
                    (heicConvert E \<lparr>heic_buffer = contentBuffer, heic_format = ''JPEG'',
                        heic_quality = 1\<rparr> = Inl e
                     \<or> (\<exists>workingBuffer.
                          heicConvert E \<lparr>heic_buffer = contentBuffer, heic_format = ''JPEG'',
                            heic_quality = 1\<rparr> = Inr workingBuffer \<and>
                          sharp_toBuffer E \<lparr>sharp_input = workingBuffer, sharp_jpeg = Some 100,
                            sharp_resize = Some 1000\<rparr> = Inl e)))))))
   \<or> (\<exists>out contentBuffer workingBuffer resizedBuffer.
         imageType k = js ''heic'' \<and>
         s3_GetObject E b k = Inr out \<and> bodyToBuffer (get_Body out) = Inr contentBuffer \<and>
         heicConvert E \<lparr>heic_buffer = contentBuffer, heic_format = ''JPEG'',
           heic_quality = 1\<rparr> = Inr workingBuffer \<and>
         sharp_toBuffer E \<lparr>sharp_input = workingBuffer, sharp_jpeg = Some 100,
           sharp_resize = Some 1000\<rparr> = Inr resizedBuffer \<and>
         snd (transform E b k) =
           [GetObjectCommand b k, PutObjectCommand (put_request b k resizedBuffer (js ''heic''))] \<and>
         fst (transform E b k) =
           (case s3_PutObject E (put_request b k resizedBuffer (js ''heic'')) of
              Inl e \<Rightarrow> Inl e | Inr u \<Rightarrow> Inr (Some (status_message b k (js ''heic'')))))"
  by (auto simp: transform_def allowlist_def split: sum.splits)

lemma transform_ignores_head:
  "transform (E\<lparr>s3_HeadObject := f\<rparr>) b k = transform E b k"
  by (simp add: transform_def Let_def cong: sum.case_cong if_cong)

lemma handler_put:
  assumes "PutObjectCommand p \<in> set (snd (handler E ev))"
  shows "p = put_request (put_Bucket p) (put_Key p) (put_Body p) (js ''heic'')
           \<and> imageType (put_Key p) = js ''heic''"
proof (cases "Records ev")
  case None
  with assms show ?thesis by (simp add: handler_def)
next
  case (Some rs)
  show ?thesis
  proof (cases rs)
    case Nil
    with Some assms show ?thesis by (simp add: handler_def)
  next
    case (Cons r rest)
    show ?thesis
    proof (cases "decodeURIComponent (replace_plus (object_key r))")
      case (Inl e)
      with Some Cons assms show ?thesis by (simp add: handler_def)
    next
      case (Inr srcKey)
      from Some Cons have ev: "Records ev = Some (r # rest)" by simp
      from assms have "PutObjectCommand p \<in> set (snd (transform E (bucket_name r) srcKey))"
        by (simp add: handler_run [OF ev Inr] split: if_splits)
      then obtain resizedBuffer
        where "p = put_request (bucket_name r) srcKey resizedBuffer (js ''heic'')"
          and "imageType srcKey = js ''heic''"
        using transform_cases [of E "bucket_name r" srcKey] by auto
      then show ?thesis
        by (simp add: put_request_def)
    qed
  qed
qed

text \<open>
  Literals, and the sample runs evaluated.
\<close>

lemmas char_defs =
  CHAR_PLUS_def CHAR_SPACE_def CHAR_PERCENT_def CHAR_DOT_def CHAR_FORWARD_SLASH_def

lemma js_append: "js (s @ t) = js s @ js t"
  by (simp add: js_def)

lemma literals_differ:
  "js ''png'' \<noteq> js ''heic''" "js ''heic'' \<noteq> js ''HEIC''"
  "js ''jpg'' \<noteq> js ''heic''" "js ''jpg'' \<noteq> js ''jpeg''"
  by (simp_all add: js_def)

lemma metadata_keys_differ:
  "js ''original-ext'' \<noteq> js ''output-format''"
  by (simp add: js_def)

lemma put_request_heic:
  "put_request b k resizedBuffer (js ''heic'') =
     \<lparr>put_Bucket = b, put_Key = k, put_Body = resizedBuffer,
      put_ContentType = js ''image/jpg'',
      put_Metadata =
        [js ''image-processed'' \<mapsto> js ''true'', js ''processed-width'' \<mapsto> js ''1000'',
         js ''original-ext'' \<mapsto> js ''heic'', js ''output-format'' \<mapsto> js ''jpg'']\<rparr>"
  by (simp add: put_request_def outputFiletype_def js_append [symmetric])

lemma decode_photo:
  "decodeURIComponent (replace_plus (js ''photo+name.HEIC'')) = Inr (js ''photo name.HEIC'')"
  by (simp add: js_def replace_plus_def char_defs)

lemma decode_diagram:
  "decodeURIComponent (replace_plus (js ''diagram.png'')) = Inr (js ''diagram.png'')"
  by (simp add: js_def replace_plus_def char_defs)

lemma decode_notes: "decodeURIComponent (replace_plus (js ''notes'')) = Inr (js ''notes'')"
  by (simp add: js_def replace_plus_def char_defs)

lemma parse_photo:
  "posix_parse (js ''photo name.HEIC'') =
     \<lparr>root = [], dir = [], base = js ''photo name.HEIC'', ext = js ''.HEIC'',
      name = js ''photo name''\<rparr>"
  by (simp add: js_def posix_parse_def parse_scan.simps char_defs slice_def)

lemma file_ext_photo: "file_ext (js ''photo name.HEIC'') = js ''HEIC''"
  by (simp add: file_ext_def parse_photo) (simp add: js_def char_defs)

lemma imageType_photo: "imageType (js ''photo name.HEIC'') = js ''heic''"
  by (simp add: imageType_def file_ext_photo) (simp add: js_def toLowerCase_def lower_unit_def)

lemma imageType_diagram: "imageType (js ''diagram.png'') = js ''png''"
  by (simp add: imageType_def file_ext_def js_def posix_parse_def parse_scan.simps char_defs
      slice_def toLowerCase_def lower_unit_def)

lemma processed_no_metadata: "\<not> processed \<lparr>head_Metadata = None\<rparr>"
  by (simp add: processed_def or_else_def js_def toLowerCase_def)

lemma processed_flagged: "processed \<lparr>head_Metadata = Some flagged_meta\<rparr>"
  by (simp add: processed_def or_else_def flagged_meta_def js_def toLowerCase_def lower_unit_def)

lemma processed_shadowed: "\<not> processed \<lparr>head_Metadata = Some shadowed_meta\<rparr>"
  by (simp add: processed_def or_else_def shadowed_meta_def js_def toLowerCase_def lower_unit_def)

lemma sample_body_buffer: "bodyToBuffer (Some sample_body) = Inr [1, 2, 3]"
  by (simp add: bodyToBuffer_def sample_body_def)

lemma sample_run:
  "handler sample_env sample_event =
     (Inr (Some (status_message (js ''photos'') (js ''photo name.HEIC'') (js ''heic''))),
      [HeadObjectCommand (js ''photos'') (js ''photo name.HEIC''),
       GetObjectCommand (js ''photos'') (js ''photo name.HEIC''),
       PutObjectCommand (put_request (js ''photos'') (js ''photo name.HEIC'') [255, 1] (js ''heic''))])"
  by (simp add: handler_def sample_event_def decode_photo sample_env_def processed_no_metadata
      transform_def imageType_photo allowlist_def sample_body_buffer Let_def)

lemma skipped_run:
  "handler (sample_env\<lparr>s3_HeadObject := \<lambda>b k. Inr \<lparr>head_Metadata = Some flagged_meta\<rparr>\<rparr>)
     sample_event
   = (Inr None, [HeadObjectCommand (js ''photos'') (js ''photo name.HEIC'')])"
  by (simp add: handler_def sample_event_def decode_photo sample_env_def processed_flagged Let_def)

lemma unsupported_run:
  "handler sample_env png_event
   = (Inr None, [HeadObjectCommand (js ''photos'') (js ''diagram.png'')])"
  by (simp add: handler_def png_event_def decode_diagram sample_env_def processed_no_metadata
      Let_def transform_def imageType_diagram allowlist_def literals_differ)

lemma shadowed_run:
  "handler (sample_env\<lparr>s3_HeadObject := \<lambda>b k. Inr \<lparr>head_Metadata = Some shadowed_meta\<rparr>\<rparr>)
     sample_event
   = (Inr (Some (status_message (js ''photos'') (js ''photo name.HEIC'') (js ''heic''))),
      [HeadObjectCommand (js ''photos'') (js ''photo name.HEIC''),
       GetObjectCommand (js ''photos'') (js ''photo name.HEIC''),
       PutObjectCommand (put_request (js ''photos'') (js ''photo name.HEIC'') [255, 1] (js ''heic''))])"
  by (simp add: handler_def sample_event_def decode_photo sample_env_def processed_shadowed
      transform_def imageType_photo allowlist_def sample_body_buffer Let_def)

section \<open>The scan of path.posix.parse\<close>

text \<open>
  A key without a dot never sets \<open>startDot\<close>, so it has no extension.
\<close>

lemma parse_scan_no_dot:
  assumes "CHAR_DOT \<notin> set path" and "startDot st = -1" and "0 \<le> start"
    and "i < int (length path)"
  shows "startDot (parse_scan path start i st) = -1"
  using assms
proof (induction path start i st rule: parse_scan.induct)
  case (1 path start i st)
  show ?case
  proof (cases "i < start")
    case True
    with "1.prems" show ?thesis
      by (subst parse_scan.simps) simp
  next
    case False
    with "1.prems" have "path ! nat i \<in> set path"
      by (intro nth_mem) linarith
    with "1.prems" have not_dot: "path ! nat i \<noteq> CHAR_DOT"
      by metis
    show ?thesis
    proof (cases "path ! nat i = CHAR_FORWARD_SLASH")
      case True
      with False "1.prems" "1.IH"(1) show ?thesis
        by (subst parse_scan.simps) simp
    next
      case slash: False
      note slash
      with False not_dot "1.prems" "1.IH"(2) show ?thesis
        by (subst parse_scan.simps) (simp add: Let_def)
    qed
  qed
qed

lemma no_dot_no_extension:
  assumes "CHAR_DOT \<notin> set path"
  shows "ext (posix_parse path) = []"
proof (cases "path = []")
  case True
  then show ?thesis by (simp add: posix_parse_def)
next
  case False
  have "startDot (parse_scan path start (int (length path) - 1)
      \<lparr>startDot = -1, startPart = 0, endPart = -1, matchedSlash = True, preDotState = 0\<rparr>) = -1"
    if "0 \<le> start" for start
    using assms that by (intro parse_scan_no_dot) simp_all
  then show ?thesis
    by (simp add: posix_parse_def Let_def)
qed

text \<open>
  Once the last segment has begun, the scan keeps its end, stops at the first slash
  before it, and \<open>startDot\<close> is a dot inside the segment.
\<close>

lemma parse_scan_segment:
  assumes "\<not> matchedSlash st" and "endPart st = e" and "startPart st = 0"
    and "0 \<le> start" and "start - 1 \<le> i" and "i < e"
    and "\<forall>j. i < j \<and> j < e \<longrightarrow> path ! nat j \<noteq> CHAR_FORWARD_SLASH"
    and "startDot st = -1 \<or> (i < startDot st \<and> startDot st < e \<and> path ! nat (startDot st) = CHAR_DOT)"
  shows "endPart (parse_scan path start i st) = e
       \<and> (startPart (parse_scan path start i st) = 0
            \<and> (\<forall>j. start \<le> j \<and> j < e \<longrightarrow> path ! nat j \<noteq> CHAR_FORWARD_SLASH)
          \<or> start < startPart (parse_scan path start i st)
            \<and> startPart (parse_scan path start i st) \<le> e
            \<and> path ! nat (startPart (parse_scan path start i st) - 1) = CHAR_FORWARD_SLASH)
       \<and> (startDot (parse_scan path start i st) = -1
          \<or> start \<le> startDot (parse_scan path start i st)
            \<and> startPart (parse_scan path start i st) \<le> startDot (parse_scan path start i st)
            \<and> startDot (parse_scan path start i st) < e
            \<and> path ! nat (startDot (parse_scan path start i st)) = CHAR_DOT)"
  using assms
proof (induction path start i st rule: parse_scan.induct)
  case (1 path start i st)
  show ?case
  proof (cases "i < start")
    case True
    with "1.prems" have "i = start - 1" by simp
    have step: "parse_scan path start i st = st"
      using True by (subst parse_scan.simps) simp
    from \<open>i = start - 1\<close> "1.prems" show ?thesis
      unfolding step by auto
  next
    case False
    show ?thesis
    proof (cases "path ! nat i = CHAR_FORWARD_SLASH")
      case True
      have step: "parse_scan path start i st = st\<lparr>startPart := i + 1\<rparr>"
        using True False "1.prems"(1) by (subst parse_scan.simps) simp
      from True False "1.prems" show ?thesis
        unfolding step by auto
    next
      case slash: False
      let ?st = "(let st1 = (if endPart st = -1
                      then st\<lparr>matchedSlash := False, endPart := i + 1\<rparr> else st)
           in if path ! nat i = CHAR_DOT then
                (if startDot st1 = -1 then st1\<lparr>startDot := i\<rparr>
                 else if preDotState st1 \<noteq> 1 then st1\<lparr>preDotState := 1\<rparr>
                 else st1)
              else if startDot st1 \<noteq> -1 then st1\<lparr>preDotState := -1\<rparr>
              else st1)"
      have step: "parse_scan path start i st = parse_scan path start (i - 1) ?st"
        using False slash by (subst parse_scan.simps) simp
      from "1.prems" False have e: "endPart st \<noteq> -1" by auto
      have a: "\<not> matchedSlash ?st" "endPart ?st = e" "startPart ?st = 0"
        using "1.prems" e by (simp_all add: Let_def)
      have b: "\<forall>j. i - 1 < j \<and> j < e \<longrightarrow> path ! nat j \<noteq> CHAR_FORWARD_SLASH"
      proof (intro allI impI)
        fix j assume "i - 1 < j \<and> j < e"
        then have "j = i \<or> (i < j \<and> j < e)" by auto
        with slash "1.prems"(7) show "path ! nat j \<noteq> CHAR_FORWARD_SLASH" by auto
      qed
      have c: "startDot ?st = -1
          \<or> (i - 1 < startDot ?st \<and> startDot ?st < e \<and> path ! nat (startDot ?st) = CHAR_DOT)"
        using "1.prems" e False by (auto simp: Let_def)
      from False "1.prems" have d: "0 \<le> start" "start - 1 \<le> i - 1" "i - 1 < e"
        by auto
      from "1.IH"(2) [OF False slash a d b c] show ?thesis
        by (simp only: step)
    qed
  qed
qed

lemma slice_inside:
  assumes "0 \<le> a" and "a \<le> b" and "b \<le> int (length s)"
  shows "slice s a b = take (nat (b - a)) (drop (nat a) s)"
  using assms by (simp add: slice_def Let_def min_def)

lemma scan_of_plain_key:
  assumes "srcKey \<noteq> []"
    and "last srcKey \<noteq> CHAR_FORWARD_SLASH" and "last srcKey \<noteq> CHAR_DOT"
    and "0 \<le> start" and "start < int (length srcKey)"
  defines "S \<equiv> parse_scan srcKey start (int (length srcKey) - 1)
      \<lparr>startDot = -1, startPart = 0, endPart = -1, matchedSlash = True, preDotState = 0\<rparr>"
  shows "endPart S = int (length srcKey)"
    and "startPart S = 0
            \<and> (\<forall>j. start \<le> j \<and> j < int (length srcKey) \<longrightarrow> srcKey ! nat j \<noteq> CHAR_FORWARD_SLASH)
          \<or> start < startPart S \<and> startPart S \<le> int (length srcKey)
            \<and> srcKey ! nat (startPart S - 1) = CHAR_FORWARD_SLASH"
    and "startDot S = -1
          \<or> start \<le> startDot S \<and> startPart S \<le> startDot S
            \<and> startDot S < int (length srcKey) - 1 \<and> srcKey ! nat (startDot S) = CHAR_DOT"
proof -
  let ?n = "int (length srcKey)"
  let ?st = "\<lparr>startDot = -1, startPart = 0, endPart = ?n, matchedSlash = False, preDotState = 0\<rparr>"
  have "nat (?n - 1) = length srcKey - 1"
    by simp
  then have at_end: "srcKey ! nat (?n - 1) = last srcKey"
    using last_conv_nth [OF assms(1)] by simp
  have first: "S = parse_scan srcKey start (?n - 2) ?st"
    unfolding S_def using assms(2,3,5) at_end
    by (subst parse_scan.simps) simp
  have tail: "\<forall>j. ?n - 2 < j \<and> j < ?n \<longrightarrow> srcKey ! nat j \<noteq> CHAR_FORWARD_SLASH"
  proof (intro allI impI)
    fix j assume "?n - 2 < j \<and> j < ?n"
    then have "j = ?n - 1" by simp
    with at_end assms(2) show "srcKey ! nat j \<noteq> CHAR_FORWARD_SLASH" by simp
  qed
  have facts: "endPart S = ?n
       \<and> (startPart S = 0
            \<and> (\<forall>j. start \<le> j \<and> j < ?n \<longrightarrow> srcKey ! nat j \<noteq> CHAR_FORWARD_SLASH)
          \<or> start < startPart S \<and> startPart S \<le> ?n
            \<and> srcKey ! nat (startPart S - 1) = CHAR_FORWARD_SLASH)
       \<and> (startDot S = -1
          \<or> start \<le> startDot S \<and> startPart S \<le> startDot S \<and> startDot S < ?n
            \<and> srcKey ! nat (startDot S) = CHAR_DOT)"
    unfolding first
    using assms(4,5) tail
    by (intro parse_scan_segment) simp_all
  from facts show "endPart S = ?n" by blast
  from facts show "startPart S = 0
            \<and> (\<forall>j. start \<le> j \<and> j < ?n \<longrightarrow> srcKey ! nat j \<noteq> CHAR_FORWARD_SLASH)
          \<or> start < startPart S \<and> startPart S \<le> ?n
            \<and> srcKey ! nat (startPart S - 1) = CHAR_FORWARD_SLASH" by blast
  have "startDot S \<noteq> ?n - 1" if "srcKey ! nat (startDot S) = CHAR_DOT"
    using that at_end assms(3) by auto
  with facts show "startDot S = -1
          \<or> start \<le> startDot S \<and> startPart S \<le> startDot S
            \<and> startDot S < ?n - 1 \<and> srcKey ! nat (startDot S) = CHAR_DOT"
    by force
qed

lemma posix_parse_parts:
  assumes "path \<noteq> []"
  defines "S \<equiv> parse_scan path (if path ! 0 = CHAR_FORWARD_SLASH then 1 else 0)
      (int (length path) - 1)
      \<lparr>startDot = -1, startPart = 0, endPart = -1, matchedSlash = True, preDotState = 0\<rparr>"
  defines "from \<equiv> (if startPart S = 0 \<and> path ! 0 = CHAR_FORWARD_SLASH then 1 else startPart S)"
  defines "noext \<equiv> startDot S = -1 \<or> preDotState S = 0
      \<or> (preDotState S = 1 \<and> startDot S = endPart S - 1 \<and> startDot S = startPart S + 1)"
  shows "dir (posix_parse path) =
        (if startPart S > 0 then slice path 0 (startPart S - 1)
         else if path ! 0 = CHAR_FORWARD_SLASH then [CHAR_FORWARD_SLASH] else [])"
    and "endPart S \<noteq> -1 \<Longrightarrow> name (posix_parse path) =
        (if noext then slice path from (endPart S) else slice path from (startDot S))"
    and "endPart S \<noteq> -1 \<Longrightarrow> ext (posix_parse path) =
        (if noext then [] else slice path (startDot S) (endPart S))"
proof -
  have unfolded: "posix_parse path =
     (let ret = \<lparr>root = [], dir = [], base = [], ext = [], name = []\<rparr>;
          isAbsolute = (path ! 0 = CHAR_FORWARD_SLASH);
          ret = (if isAbsolute then ret\<lparr>root := [CHAR_FORWARD_SLASH]\<rparr> else ret);
          ret =
              (if endPart S \<noteq> -1 then
                 (if noext
                     then ret\<lparr>base := slice path from (endPart S),
                              name := slice path from (endPart S)\<rparr>
                     else ret\<lparr>name := slice path from (startDot S),
                              base := slice path from (endPart S),
                              ext := slice path (startDot S) (endPart S)\<rparr>)
               else ret)
        in if startPart S > 0 then ret\<lparr>dir := slice path 0 (startPart S - 1)\<rparr>
           else if isAbsolute then ret\<lparr>dir := [CHAR_FORWARD_SLASH]\<rparr>
           else ret)"
    using assms(1) unfolding posix_parse_def S_def from_def noext_def Let_def
    by (simp only: length_0_conv if_False)
  show "dir (posix_parse path) =
        (if startPart S > 0 then slice path 0 (startPart S - 1)
         else if path ! 0 = CHAR_FORWARD_SLASH then [CHAR_FORWARD_SLASH] else [])"
    unfolding unfolded Let_def by simp
  show "name (posix_parse path) =
        (if noext then slice path from (endPart S) else slice path from (startDot S))"
    if "endPart S \<noteq> -1"
    unfolding unfolded Let_def using that by simp
  show "ext (posix_parse path) =
        (if noext then [] else slice path (startDot S) (endPart S))"
    if "endPart S \<noteq> -1"
    unfolding unfolded Let_def using that by simp
qed

section \<open>Properties of the handler\<close>

text \<open>
  Claim C1. When the object fetch, the collection of the body into a buffer, the HEIC
  conversion or the resize fails, no PutObject is sent. Conversely a PutObject in the
  trace means that all four succeeded, that it carries the resized buffer, and that it
  is the last of exactly three commands: the object is written once, at the very end.
\<close>

theorem failed_stage_sends_no_put:
  assumes "Records ev = Some (r # rest)"
    and "decodeURIComponent (replace_plus (object_key r)) = Inr srcKey"
  shows "((\<exists>e. s3_GetObject E (bucket_name r) srcKey = Inl e)
          \<or> (\<exists>out. s3_GetObject E (bucket_name r) srcKey = Inr out \<and>
               ((\<exists>e. bodyToBuffer (get_Body out) = Inl e)
                \<or> (\<exists>contentBuffer. bodyToBuffer (get_Body out) = Inr contentBuffer \<and>
                     ((\<exists>e. heicConvert E \<lparr>heic_buffer = contentBuffer, heic_format = ''JPEG'',
                              heic_quality = 1\<rparr> = Inl e)
                      \<or> (\<exists>workingBuffer e.
                            heicConvert E \<lparr>heic_buffer = contentBuffer, heic_format = ''JPEG'',
                              heic_quality = 1\<rparr> = Inr workingBuffer \<and>
                            sharp_toBuffer E \<lparr>sharp_input = workingBuffer, sharp_jpeg = Some 100,
                              sharp_resize = Some 1000\<rparr> = Inl e)))))
         \<longrightarrow> (\<forall>p. PutObjectCommand p \<notin> set (snd (handler E ev))))
       \<and> (\<forall>p. PutObjectCommand p \<in> set (snd (handler E ev)) \<longrightarrow>
            (\<exists>out contentBuffer workingBuffer.
               s3_GetObject E (bucket_name r) srcKey = Inr out \<and>
               bodyToBuffer (get_Body out) = Inr contentBuffer \<and>
               heicConvert E \<lparr>heic_buffer = contentBuffer, heic_format = ''JPEG'',
                 heic_quality = 1\<rparr> = Inr workingBuffer \<and>
               sharp_toBuffer E \<lparr>sharp_input = workingBuffer, sharp_jpeg = Some 100,
                 sharp_resize = Some 1000\<rparr> = Inr (put_Body p)) \<and>
            snd (handler E ev) =
              [HeadObjectCommand (bucket_name r) srcKey, GetObjectCommand (bucket_name r) srcKey,
               PutObjectCommand p])"
proof -
  let ?b = "bucket_name r"
  have sent: "snd (handler E ev) = [HeadObjectCommand ?b srcKey]
      \<or> snd (handler E ev) = HeadObjectCommand ?b srcKey # snd (transform E ?b srcKey)"
    using assms by (simp add: handler_run)
  have only: "\<exists>out contentBuffer workingBuffer.
        s3_GetObject E ?b srcKey = Inr out \<and> bodyToBuffer (get_Body out) = Inr contentBuffer \<and>
        heicConvert E \<lparr>heic_buffer = contentBuffer, heic_format = ''JPEG'',
          heic_quality = 1\<rparr> = Inr workingBuffer \<and>
        sharp_toBuffer E \<lparr>sharp_input = workingBuffer, sharp_jpeg = Some 100,
          sharp_resize = Some 1000\<rparr> = Inr (put_Body p) \<and>
        snd (transform E ?b srcKey) = [GetObjectCommand ?b srcKey, PutObjectCommand p]"
    if "PutObjectCommand p \<in> set (snd (transform E ?b srcKey))" for p
    using that transform_cases [of E ?b srcKey]
    by (elim disjE exE conjE) (auto simp: put_request_def)
  have second: "(\<exists>out contentBuffer workingBuffer.
               s3_GetObject E ?b srcKey = Inr out \<and>
               bodyToBuffer (get_Body out) = Inr contentBuffer \<and>
               heicConvert E \<lparr>heic_buffer = contentBuffer, heic_format = ''JPEG'',
                 heic_quality = 1\<rparr> = Inr workingBuffer \<and>
               sharp_toBuffer E \<lparr>sharp_input = workingBuffer, sharp_jpeg = Some 100,
                 sharp_resize = Some 1000\<rparr> = Inr (put_Body p)) \<and>
            snd (handler E ev) =
              [HeadObjectCommand ?b srcKey, GetObjectCommand ?b srcKey, PutObjectCommand p]"
    if "PutObjectCommand p \<in> set (snd (handler E ev))" for p
  proof -
    from that sent have in_t: "PutObjectCommand p \<in> set (snd (transform E ?b srcKey))"
      and eq: "snd (handler E ev) = HeadObjectCommand ?b srcKey # snd (transform E ?b srcKey)"
      by auto
    from only [OF in_t] eq show ?thesis
      by auto
  qed
  have first: "False"
    if "PutObjectCommand p \<in> set (snd (handler E ev))"
      and "(\<exists>e. s3_GetObject E ?b srcKey = Inl e)
          \<or> (\<exists>out. s3_GetObject E ?b srcKey = Inr out \<and>
               ((\<exists>e. bodyToBuffer (get_Body out) = Inl e)
                \<or> (\<exists>contentBuffer. bodyToBuffer (get_Body out) = Inr contentBuffer \<and>
                     ((\<exists>e. heicConvert E \<lparr>heic_buffer = contentBuffer, heic_format = ''JPEG'',
                              heic_quality = 1\<rparr> = Inl e)
                      \<or> (\<exists>workingBuffer e.
                            heicConvert E \<lparr>heic_buffer = contentBuffer, heic_format = ''JPEG'',
                              heic_quality = 1\<rparr> = Inr workingBuffer \<and>
                            sharp_toBuffer E \<lparr>sharp_input = workingBuffer, sharp_jpeg = Some 100,
                              sharp_resize = Some 1000\<rparr> = Inl e)))))" for p
    using second [OF that(1)] that(2) by auto
  from first second show ?thesis
    by blast
qed

theorem failed_stage_sends_no_put_witness:
  "heicConvert (sample_env\<lparr>heicConvert := \<lambda>i. Inl (ServiceException ''corrupt'')\<rparr>)
      \<lparr>heic_buffer = [1, 2, 3], heic_format = ''JPEG'', heic_quality = 1\<rparr>
     = Inl (ServiceException ''corrupt'')
   \<and> PutObjectCommand (put_request (js ''photos'') (js ''photo name.HEIC'') [255, 1] (js ''heic''))
       \<notin> set (snd (handler (sample_env\<lparr>heicConvert := \<lambda>i. Inl (ServiceException ''corrupt'')\<rparr>)
                    sample_event))
   \<and> PutObjectCommand (put_request (js ''photos'') (js ''photo name.HEIC'') [255, 1] (js ''heic''))
       \<in> set (snd (handler sample_env sample_event))
   \<and> snd (handler sample_env sample_event) =
       [HeadObjectCommand (js ''photos'') (js ''photo name.HEIC''),
        GetObjectCommand (js ''photos'') (js ''photo name.HEIC''),
        PutObjectCommand (put_request (js ''photos'') (js ''photo name.HEIC'') [255, 1] (js ''heic''))]"
proof -
  let ?F = "sample_env\<lparr>heicConvert := \<lambda>i. Inl (ServiceException ''corrupt'')\<rparr>"
  let ?r = "\<lparr>bucket_name = js ''photos'', object_key = js ''photo+name.HEIC''\<rparr>"
  let ?p = "put_request (js ''photos'') (js ''photo name.HEIC'') [255, 1] (js ''heic'')"
  have ev: "Records sample_event = Some (?r # [])"
    by (simp add: sample_event_def)
  have key: "decodeURIComponent (replace_plus (object_key ?r)) = Inr (js ''photo name.HEIC'')"
    by (simp add: decode_photo)
  have fetched: "s3_GetObject ?F (bucket_name ?r) (js ''photo name.HEIC'')
      = Inr \<lparr>get_Body = Some sample_body\<rparr>"
    by (simp add: sample_env_def)
  have collected: "bodyToBuffer (get_Body \<lparr>get_Body = Some sample_body\<rparr>) = Inr [1, 2, 3]"
    by (simp add: sample_body_buffer)
  have broken: "heicConvert ?F \<lparr>heic_buffer = [1, 2, 3], heic_format = ''JPEG'', heic_quality = 1\<rparr>
      = Inl (ServiceException ''corrupt'')"
    by simp
  from fetched collected broken
  have "\<forall>p. PutObjectCommand p \<notin> set (snd (handler ?F sample_event))"
    using failed_stage_sends_no_put [OF ev key, of ?F, THEN conjunct1] by blast
  then have no_put: "PutObjectCommand ?p \<notin> set (snd (handler ?F sample_event))"
    by blast
  have sent: "PutObjectCommand ?p \<in> set (snd (handler sample_env sample_event))"
    by (simp add: sample_run)
  from sent have "snd (handler sample_env sample_event) =
      [HeadObjectCommand (bucket_name ?r) (js ''photo name.HEIC''),
       GetObjectCommand (bucket_name ?r) (js ''photo name.HEIC''), PutObjectCommand ?p]"
    using failed_stage_sends_no_put [OF ev key, of sample_env, THEN conjunct2] by blast
  with broken no_put sent show ?thesis
    by simp
qed

text \<open>
  Claim C2, as stated, fails: the lookup is \<open>a || b\<close>, so a non-empty value under
  \<open>image-processed\<close> hides the one under \<open>Image-Processed\<close>. With
  \<open>image-processed = false\<close> and \<open>Image-Processed = true\<close> the object is fetched and
  overwritten.
\<close>

theorem flagged_object_counterexample:
  "s3_HeadObject (sample_env\<lparr>s3_HeadObject := \<lambda>b k. Inr \<lparr>head_Metadata = Some shadowed_meta\<rparr>\<rparr>)
     (js ''photos'') (js ''photo name.HEIC'') = Inr \<lparr>head_Metadata = Some shadowed_meta\<rparr>
   \<and> shadowed_meta (js ''Image-Processed'') = Some (js ''true'')
   \<and> toLowerCase (js ''true'') = js ''true''
   \<and> snd (handler (sample_env\<lparr>s3_HeadObject := \<lambda>b k. Inr \<lparr>head_Metadata = Some shadowed_meta\<rparr>\<rparr>)
       sample_event)
     = [HeadObjectCommand (js ''photos'') (js ''photo name.HEIC''),
        GetObjectCommand (js ''photos'') (js ''photo name.HEIC''),
        PutObjectCommand (put_request (js ''photos'') (js ''photo name.HEIC'') [255, 1] (js ''heic''))]"
proof -
  have "shadowed_meta (js ''Image-Processed'') = Some (js ''true'')"
    by (simp add: shadowed_meta_def)
  moreover have "toLowerCase (js ''true'') = js ''true''"
    by (simp add: js_def toLowerCase_def lower_unit_def)
  ultimately show ?thesis
    by (simp add: shadowed_run)
qed

text \<open>
  Claim C2, amended. Whenever HeadObject succeeds and the flag value the handler looks
  at (the value under \<open>image-processed\<close> when it is present and not empty, otherwise
  the value under \<open>Image-Processed\<close>) is \<open>true\<close> in any letter case, the handler
  returns without a value after the HeadObject call alone: no GetObject, no PutObject.
\<close>

theorem flagged_object_skipped:
  assumes "Records ev = Some (r # rest)"
    and "decodeURIComponent (replace_plus (object_key r)) = Inr srcKey"
    and "s3_HeadObject E (bucket_name r) srcKey = Inr head"
    and "head_Metadata head = Some meta"
    and "(meta (js ''image-processed'') = Some v \<and> v \<noteq> [])
         \<or> ((meta (js ''image-processed'') = None \<or> meta (js ''image-processed'') = Some [])
             \<and> meta (js ''Image-Processed'') = Some v)"
    and "toLowerCase v = js ''true''"
  shows "handler E ev = (Inr None, [HeadObjectCommand (bucket_name r) srcKey])"
proof -
  have "v \<noteq> []"
    using assms(6) by (auto simp: toLowerCase_def js_def)
  with assms(5) have "or_else (or_else (meta (js ''image-processed'')) (meta (js ''Image-Processed'')))
      (Some []) = Some v"
    by (auto simp: or_else_def split: list.splits)
  with assms(4,6) have "processed head"
    by (simp add: processed_def)
  with assms(1-3) show ?thesis
    by (simp add: handler_run)
qed

theorem flagged_object_skipped_witness:
  "toLowerCase (js ''TRUE'') = js ''true''
   \<and> flagged_meta (js ''image-processed'') = None
   \<and> flagged_meta (js ''Image-Processed'') = Some (js ''TRUE'')
   \<and> handler (sample_env\<lparr>s3_HeadObject := \<lambda>b k. Inr \<lparr>head_Metadata = Some flagged_meta\<rparr>\<rparr>)
       sample_event
     = (Inr None, [HeadObjectCommand (js ''photos'') (js ''photo name.HEIC'')])"
proof -
  have low: "toLowerCase (js ''TRUE'') = js ''true''"
    by (simp add: js_def toLowerCase_def lower_unit_def)
  have m1: "flagged_meta (js ''image-processed'') = None"
    by (simp add: flagged_meta_def js_def)
  have m2: "flagged_meta (js ''Image-Processed'') = Some (js ''TRUE'')"
    by (simp add: flagged_meta_def)
  have "handler (sample_env\<lparr>s3_HeadObject := \<lambda>b k. Inr \<lparr>head_Metadata = Some flagged_meta\<rparr>\<rparr>)
       sample_event
     = (Inr None, [HeadObjectCommand
         (bucket_name \<lparr>bucket_name = js ''photos'', object_key = js ''photo+name.HEIC''\<rparr>)
         (js ''photo name.HEIC'')])"
    by (rule flagged_object_skipped [where rest = "[]" and v = "js ''TRUE''" and meta = flagged_meta
          and head = "\<lparr>head_Metadata = Some flagged_meta\<rparr>"])
      (simp_all add: sample_event_def decode_photo low m1 m2)
  with low m1 m2 show ?thesis by simp
qed

text \<open>
  Claim C3. When HeadObject throws, whatever the error, the handler goes on to the
  second block (key resolution and format classification): its result and the commands
  it sends are those of a run whose HeadObject answers with metadata that carries no
  flag, or with no metadata at all. The error of HeadObject is dropped.
\<close>

theorem head_failure_proceeds:
  assumes "Records ev = Some (r # rest)"
    and "decodeURIComponent (replace_plus (object_key r)) = Inr srcKey"
    and "s3_HeadObject E (bucket_name r) srcKey = Inl e"
    and "meta (js ''image-processed'') = None" and "meta (js ''Image-Processed'') = None"
  shows "handler E ev =
           (fst (transform E (bucket_name r) srcKey),
            HeadObjectCommand (bucket_name r) srcKey # snd (transform E (bucket_name r) srcKey))
       \<and> handler E ev = handler (E\<lparr>s3_HeadObject := \<lambda>b k. Inr \<lparr>head_Metadata = Some meta\<rparr>\<rparr>) ev
       \<and> handler E ev = handler (E\<lparr>s3_HeadObject := \<lambda>b k. Inr \<lparr>head_Metadata = None\<rparr>\<rparr>) ev"
proof -
  have "\<not> processed \<lparr>head_Metadata = Some meta\<rparr>"
    using assms(4,5) by (simp add: processed_def or_else_def js_def toLowerCase_def)
  moreover note processed_no_metadata
  ultimately show ?thesis
    using assms(1-3) by (simp add: handler_run transform_ignores_head)
qed

theorem head_failure_proceeds_witness:
  "handler (sample_env\<lparr>s3_HeadObject := \<lambda>b k. Inl (ServiceException ''AccessDenied'')\<rparr>) sample_event
     = handler sample_env sample_event
   \<and> fst (handler (sample_env\<lparr>s3_HeadObject := \<lambda>b k. Inl (ServiceException ''AccessDenied'')\<rparr>)
        sample_event)
     = Inr (Some (status_message (js ''photos'') (js ''photo name.HEIC'') (js ''heic'')))"
proof -
  let ?E = "sample_env\<lparr>s3_HeadObject := \<lambda>b k. Inl (ServiceException ''AccessDenied'')\<rparr>"
  let ?r = "\<lparr>bucket_name = js ''photos'', object_key = js ''photo+name.HEIC''\<rparr>"
  have same: "?E\<lparr>s3_HeadObject := \<lambda>b k. Inr \<lparr>head_Metadata = None\<rparr>\<rparr> = sample_env"
    by (simp add: sample_env_def)
  have ev: "Records sample_event = Some (?r # [])"
    by (simp add: sample_event_def)
  have key: "decodeURIComponent (replace_plus (object_key ?r)) = Inr (js ''photo name.HEIC'')"
    by (simp add: decode_photo)
  have fails: "s3_HeadObject ?E (bucket_name ?r) (js ''photo name.HEIC'')
      = Inl (ServiceException ''AccessDenied'')"
    by simp
  have none: "Map.empty (js ''image-processed'') = (None :: jsstring option)"
    "Map.empty (js ''Image-Processed'') = (None :: jsstring option)"
    by simp_all
  from head_failure_proceeds [OF ev key fails none]
  have "handler ?E sample_event
      = handler (?E\<lparr>s3_HeadObject := \<lambda>b k. Inr \<lparr>head_Metadata = None\<rparr>\<rparr>) sample_event"
    by blast
  then have "handler ?E sample_event = handler sample_env sample_event"
    by (simp only: same)
  then show ?thesis
    by (simp only: sample_run fst_conv simp_thms)
qed

text \<open>
  Claim C4. When the lowercased extension of the decoded key is not on the allowlist
  (which holds \<open>heic\<close> and nothing else), the handler returns normally, without a
  value, after the HeadObject call alone: no GetObject, no PutObject. A key without any
  dot has the empty extension and is such a key.
\<close>

theorem unsupported_key_is_noop:
  assumes "Records ev = Some (r # rest)"
    and "decodeURIComponent (replace_plus (object_key r)) = Inr srcKey"
    and "imageType srcKey \<notin> set allowlist \<or> CHAR_DOT \<notin> set srcKey"
  shows "handler E ev = (Inr None, [HeadObjectCommand (bucket_name r) srcKey])
       \<and> allowlist = [js ''heic'']
       \<and> (CHAR_DOT \<notin> set srcKey \<longrightarrow> file_ext srcKey = [])"
proof -
  have bare: "file_ext srcKey = []" if "CHAR_DOT \<notin> set srcKey"
    using that by (simp add: file_ext_def no_dot_no_extension)
  have "imageType srcKey \<notin> set allowlist"
  proof (cases "CHAR_DOT \<in> set srcKey")
    case True
    with assms(3) show ?thesis by simp
  next
    case False
    then have "imageType srcKey = []"
      by (simp add: imageType_def bare toLowerCase_def)
    then show ?thesis
      by (simp add: allowlist_def js_def)
  qed
  then have "handler E ev = (Inr None, [HeadObjectCommand (bucket_name r) srcKey])"
    by (simp add: handler_run [OF assms(1,2)] transform_unsupported)
  with bare show ?thesis
    by (simp add: allowlist_def)
qed

theorem unsupported_key_is_noop_witness:
  "imageType (js ''diagram.png'') \<notin> set allowlist
   \<and> handler sample_env png_event
       = (Inr None, [HeadObjectCommand (js ''photos'') (js ''diagram.png'')])
   \<and> CHAR_DOT \<notin> set (js ''notes'')
   \<and> file_ext (js ''notes'') = []
   \<and> handler sample_env \<lparr>Records = Some [\<lparr>bucket_name = js ''photos'', object_key = js ''notes''\<rparr>]\<rparr>
       = (Inr None, [HeadObjectCommand (js ''photos'') (js ''notes'')])"
proof -
  let ?d = "\<lparr>bucket_name = js ''photos'', object_key = js ''diagram.png''\<rparr>"
  let ?n = "\<lparr>bucket_name = js ''photos'', object_key = js ''notes''\<rparr>"
  have ev: "Records png_event = Some (?d # [])"
    by (simp add: png_event_def)
  have key: "decodeURIComponent (replace_plus (object_key ?d)) = Inr (js ''diagram.png'')"
    by (simp add: decode_diagram)
  have png: "imageType (js ''diagram.png'') \<notin> set allowlist"
    by (simp add: imageType_diagram allowlist_def literals_differ)
  have ev': "Records \<lparr>Records = Some [?n]\<rparr> = Some (?n # [])"
    by simp
  have key': "decodeURIComponent (replace_plus (object_key ?n)) = Inr (js ''notes'')"
    by (simp add: decode_notes)
  have bare: "CHAR_DOT \<notin> set (js ''notes'')"
    by (simp add: js_def CHAR_DOT_def)
  from unsupported_key_is_noop [OF ev key disjI1, OF png, of sample_env]
  have one: "handler sample_env png_event
      = (Inr None, [HeadObjectCommand (js ''photos'') (js ''diagram.png'')])"
    by simp
  from unsupported_key_is_noop [OF ev' key' disjI2, OF bare, of sample_env] bare
  have two: "handler sample_env \<lparr>Records = Some [?n]\<rparr>
      = (Inr None, [HeadObjectCommand (js ''photos'') (js ''notes'')])"
    and three: "file_ext (js ''notes'') = []"
    by simp_all
  from png one bare three two show ?thesis
    by blast
qed

text \<open>
  Claim C5. The raw key \<open>photo+name.HEIC\<close> decodes to \<open>photo name.HEIC\<close>, with
  base name \<open>photo name\<close> and lowercased extension \<open>heic\<close>, which is on the
  allowlist. On an object that is not flagged, once fetch, conversion and resize have
  succeeded, the handler writes the resized buffer to the same bucket and key with
  content type \<open>image/jpg\<close> and exactly the four metadata entries.
\<close>

theorem photo_name_scenario:
  assumes "Records ev = Some (r # rest)"
    and "object_key r = js ''photo+name.HEIC''"
    and "s3_HeadObject E (bucket_name r) (js ''photo name.HEIC'') = Inr head"
    and "\<not> processed head"
    and "s3_GetObject E (bucket_name r) (js ''photo name.HEIC'') = Inr out"
    and "bodyToBuffer (get_Body out) = Inr contentBuffer"
    and "heicConvert E \<lparr>heic_buffer = contentBuffer, heic_format = ''JPEG'', heic_quality = 1\<rparr>
           = Inr workingBuffer"
    and "sharp_toBuffer E \<lparr>sharp_input = workingBuffer, sharp_jpeg = Some 100,
           sharp_resize = Some 1000\<rparr> = Inr resizedBuffer"
  shows "decodeURIComponent (replace_plus (object_key r)) = Inr (js ''photo name.HEIC'')
       \<and> name (posix_parse (js ''photo name.HEIC'')) = js ''photo name''
       \<and> imageType (js ''photo name.HEIC'') = js ''heic''
       \<and> imageType (js ''photo name.HEIC'') \<in> set allowlist
       \<and> snd (handler E ev) =
           [HeadObjectCommand (bucket_name r) (js ''photo name.HEIC''),
            GetObjectCommand (bucket_name r) (js ''photo name.HEIC''),
            PutObjectCommand
              \<lparr>put_Bucket = bucket_name r, put_Key = js ''photo name.HEIC'',
               put_Body = resizedBuffer, put_ContentType = js ''image/jpg'',
               put_Metadata =
                 [js ''image-processed'' \<mapsto> js ''true'', js ''processed-width'' \<mapsto> js ''1000'',
                  js ''original-ext'' \<mapsto> js ''heic'', js ''output-format'' \<mapsto> js ''jpg'']\<rparr>]"
proof -
  have key: "decodeURIComponent (replace_plus (object_key r)) = Inr (js ''photo name.HEIC'')"
    using assms(2) by (simp add: decode_photo)
  have "snd (transform E (bucket_name r) (js ''photo name.HEIC'')) =
      [GetObjectCommand (bucket_name r) (js ''photo name.HEIC''),
       PutObjectCommand (put_request (bucket_name r) (js ''photo name.HEIC'') resizedBuffer
         (js ''heic''))]"
    using assms(5-8)
    by (simp add: transform_def imageType_photo allowlist_def Let_def split: sum.splits)
  then have "snd (handler E ev) =
      [HeadObjectCommand (bucket_name r) (js ''photo name.HEIC''),
       GetObjectCommand (bucket_name r) (js ''photo name.HEIC''),
       PutObjectCommand (put_request (bucket_name r) (js ''photo name.HEIC'') resizedBuffer
         (js ''heic''))]"
    using assms(3,4) by (simp add: handler_run [OF assms(1) key])
  then show ?thesis
    by (simp add: key parse_photo imageType_photo allowlist_def put_request_heic)
qed

theorem photo_name_scenario_witness:
  "\<not> processed \<lparr>head_Metadata = None\<rparr>
   \<and> snd (handler sample_env sample_event) =
       [HeadObjectCommand (js ''photos'') (js ''photo name.HEIC''),
        GetObjectCommand (js ''photos'') (js ''photo name.HEIC''),
        PutObjectCommand
          \<lparr>put_Bucket = js ''photos'', put_Key = js ''photo name.HEIC'',
           put_Body = [255, 1], put_ContentType = js ''image/jpg'',
           put_Metadata =
             [js ''image-processed'' \<mapsto> js ''true'', js ''processed-width'' \<mapsto> js ''1000'',
              js ''original-ext'' \<mapsto> js ''heic'', js ''output-format'' \<mapsto> js ''jpg'']\<rparr>]"
proof -
  let ?r = "\<lparr>bucket_name = js ''photos'', object_key = js ''photo+name.HEIC''\<rparr>"
  have ev: "Records sample_event = Some (?r # [])"
    by (simp add: sample_event_def)
  have raw: "object_key ?r = js ''photo+name.HEIC''"
    by simp
  have head: "s3_HeadObject sample_env (bucket_name ?r) (js ''photo name.HEIC'')
      = Inr \<lparr>head_Metadata = None\<rparr>"
    by (simp add: sample_env_def)
  have fetched: "s3_GetObject sample_env (bucket_name ?r) (js ''photo name.HEIC'')
      = Inr \<lparr>get_Body = Some sample_body\<rparr>"
    by (simp add: sample_env_def)
  have collected: "bodyToBuffer (get_Body \<lparr>get_Body = Some sample_body\<rparr>) = Inr [1, 2, 3]"
    by (simp add: sample_body_buffer)
  have converted: "heicConvert sample_env
      \<lparr>heic_buffer = [1, 2, 3], heic_format = ''JPEG'', heic_quality = 1\<rparr> = Inr [255, 1, 2, 3]"
    by (simp add: sample_env_def)
  have resized: "sharp_toBuffer sample_env
      \<lparr>sharp_input = [255, 1, 2, 3], sharp_jpeg = Some 100, sharp_resize = Some 1000\<rparr>
      = Inr [255, 1]"
    by (simp add: sample_env_def)
  from photo_name_scenario [OF ev raw head processed_no_metadata fetched collected converted resized]
  show ?thesis
    using processed_no_metadata by simp
qed

text \<open>
  Claim C6, as stated, fails: the handler stores \<open>imageType\<close>, the lowercased
  extension, under \<open>original-ext\<close>. For \<open>photo name.HEIC\<close> the extension is
  \<open>HEIC\<close> and the recorded value is \<open>heic\<close>.
\<close>

theorem original_ext_counterexample:
  "PutObjectCommand (put_request (js ''photos'') (js ''photo name.HEIC'') [255, 1] (js ''heic''))
     \<in> set (snd (handler sample_env sample_event))
   \<and> file_ext (js ''photo name.HEIC'') = js ''HEIC''
   \<and> put_Metadata (put_request (js ''photos'') (js ''photo name.HEIC'') [255, 1] (js ''heic''))
       (js ''original-ext'') = Some (js ''heic'')
   \<and> js ''heic'' \<noteq> js ''HEIC''"
  by (simp add: sample_run file_ext_photo put_request_def metadata_keys_differ literals_differ)

text \<open>
  Claim C6, amended. For every published object the value recorded under
  \<open>original-ext\<close> is the lowercased extension of the key, the same string that was
  used for classification (so it is \<open>heic\<close>).
\<close>

theorem original_ext_lowercased:
  assumes "PutObjectCommand p \<in> set (snd (handler E ev))"
  shows "put_Metadata p (js ''original-ext'') = Some (toLowerCase (file_ext (put_Key p)))
       \<and> toLowerCase (file_ext (put_Key p)) = js ''heic''
       \<and> toLowerCase (file_ext (put_Key p)) \<in> set allowlist"
proof -
  from handler_put [OF assms]
  have p: "p = put_request (put_Bucket p) (put_Key p) (put_Body p) (js ''heic'')"
    and t: "imageType (put_Key p) = js ''heic''"
    by simp_all
  have "put_Metadata (put_request (put_Bucket p) (put_Key p) (put_Body p) (js ''heic''))
      (js ''original-ext'') = Some (js ''heic'')"
    by (simp add: put_request_def metadata_keys_differ)
  with p have "put_Metadata p (js ''original-ext'') = Some (js ''heic'')"
    by simp
  with t show ?thesis
    by (simp add: imageType_def allowlist_def)
qed

theorem original_ext_lowercased_witness:
  "PutObjectCommand (put_request (js ''photos'') (js ''photo name.HEIC'') [255, 1] (js ''heic''))
     \<in> set (snd (handler sample_env sample_event))
   \<and> put_Metadata (put_request (js ''photos'') (js ''photo name.HEIC'') [255, 1] (js ''heic''))
       (js ''original-ext'') = Some (toLowerCase (js ''HEIC''))"
proof -
  let ?p = "put_request (js ''photos'') (js ''photo name.HEIC'') [255, 1] (js ''heic'')"
  have sent: "PutObjectCommand ?p \<in> set (snd (handler sample_env sample_event))"
    by (simp add: sample_run)
  have key: "put_Key ?p = js ''photo name.HEIC''"
    by (simp add: put_request_def)
  from original_ext_lowercased [OF sent]
  have "put_Metadata ?p (js ''original-ext'') = Some (toLowerCase (file_ext (put_Key ?p)))"
    by blast
  then have "put_Metadata ?p (js ''original-ext'') = Some (toLowerCase (js ''HEIC''))"
    by (simp only: key file_ext_photo)
  with sent show ?thesis
    by blast
qed

text \<open>
  Claim C7, as stated, fails: the skip and the unsupported-format outcome both end in
  a bare \<open>return\<close>, so both runs settle to \<open>undefined\<close> and no string tells them
  apart.
\<close>

theorem status_string_counterexample:
  "handler (sample_env\<lparr>s3_HeadObject := \<lambda>b k. Inr \<lparr>head_Metadata = Some flagged_meta\<rparr>\<rparr>)
     sample_event
     = (Inr None, [HeadObjectCommand (js ''photos'') (js ''photo name.HEIC'')])
   \<and> handler sample_env png_event
     = (Inr None, [HeadObjectCommand (js ''photos'') (js ''diagram.png'')])
   \<and> imageType (js ''diagram.png'') \<notin> set allowlist
   \<and> processed \<lparr>head_Metadata = Some flagged_meta\<rparr>"
  by (simp add: skipped_run unsupported_run imageType_diagram allowlist_def literals_differ
      processed_flagged)

text \<open>
  Claim C7, amended. All three outcomes are normal completions. The skip (already
  processed) and the unsupported format return no value; only a successful transform
  returns a status string, which names the bucket, the key and the output format.
\<close>

theorem completion_values:
  assumes "Records ev = Some (r # rest)"
    and "decodeURIComponent (replace_plus (object_key r)) = Inr srcKey"
  shows "((\<exists>head. s3_HeadObject E (bucket_name r) srcKey = Inr head \<and> processed head)
            \<longrightarrow> fst (handler E ev) = Inr None)
       \<and> (imageType srcKey \<notin> set allowlist \<longrightarrow> fst (handler E ev) = Inr None)
       \<and> (\<forall>p. PutObjectCommand p \<in> set (snd (handler E ev)) \<and> s3_PutObject E p = Inr ()
            \<longrightarrow> fst (handler E ev)
                  = Inr (Some (js ''Processed and overwritten '' @ bucket_name r @ js ''/'' @ srcKey
                               @ js '' (format: jpg)'')))"
proof -
  let ?b = "bucket_name r"
  note run = handler_run [OF assms, of E]
  have skip: "fst (handler E ev) = Inr None"
    if "s3_HeadObject E ?b srcKey = Inr head" and "processed head" for head
    using that by (simp add: run)
  have unsupported: "fst (handler E ev) = Inr None" if "imageType srcKey \<notin> set allowlist"
    using that by (simp add: run transform_unsupported)
  have transformed: "fst (handler E ev)
      = Inr (Some (js ''Processed and overwritten '' @ ?b @ js ''/'' @ srcKey
                   @ js '' (format: jpg)''))"
    if sent: "PutObjectCommand p \<in> set (snd (handler E ev))" and ok: "s3_PutObject E p = Inr ()"
    for p
  proof -
    from sent have in_t: "PutObjectCommand p \<in> set (snd (transform E ?b srcKey))"
      and res: "fst (handler E ev) = fst (transform E ?b srcKey)"
      by (simp_all add: run split: if_splits)
    from in_t transform_cases [of E ?b srcKey] obtain resizedBuffer
      where "snd (transform E ?b srcKey)
          = [GetObjectCommand ?b srcKey,
             PutObjectCommand (put_request ?b srcKey resizedBuffer (js ''heic''))]"
        and "fst (transform E ?b srcKey)
          = (case s3_PutObject E (put_request ?b srcKey resizedBuffer (js ''heic'')) of
               Inl e \<Rightarrow> Inl e | Inr u \<Rightarrow> Inr (Some (status_message ?b srcKey (js ''heic''))))"
      by auto
    with in_t ok have "fst (transform E ?b srcKey) = Inr (Some (status_message ?b srcKey (js ''heic'')))"
      by auto
    with res show ?thesis
      by (simp add: status_message_def outputFiletype_def js_append [symmetric])
  qed
  from skip unsupported transformed show ?thesis
    by blast
qed

theorem completion_values_witness:
  "fst (handler (sample_env\<lparr>s3_HeadObject := \<lambda>b k. Inr \<lparr>head_Metadata = Some flagged_meta\<rparr>\<rparr>)
          sample_event) = Inr None
   \<and> fst (handler sample_env png_event) = Inr None
   \<and> fst (handler sample_env sample_event)
       = Inr (Some (js ''Processed and overwritten photos/photo name.HEIC (format: jpg)''))"
proof -
  let ?G = "sample_env\<lparr>s3_HeadObject := \<lambda>b k. Inr \<lparr>head_Metadata = Some flagged_meta\<rparr>\<rparr>"
  let ?r = "\<lparr>bucket_name = js ''photos'', object_key = js ''photo+name.HEIC''\<rparr>"
  let ?d = "\<lparr>bucket_name = js ''photos'', object_key = js ''diagram.png''\<rparr>"
  let ?p = "put_request (js ''photos'') (js ''photo name.HEIC'') [255, 1] (js ''heic'')"
  have ev: "Records sample_event = Some (?r # [])"
    by (simp add: sample_event_def)
  have key: "decodeURIComponent (replace_plus (object_key ?r)) = Inr (js ''photo name.HEIC'')"
    by (simp add: decode_photo)
  have ev': "Records png_event = Some (?d # [])"
    by (simp add: png_event_def)
  have key': "decodeURIComponent (replace_plus (object_key ?d)) = Inr (js ''diagram.png'')"
    by (simp add: decode_diagram)
  have flagged: "\<exists>head. s3_HeadObject ?G (bucket_name ?r) (js ''photo name.HEIC'') = Inr head
      \<and> processed head"
    by (simp add: processed_flagged)
  have png: "imageType (js ''diagram.png'') \<notin> set allowlist"
    by (simp add: imageType_diagram allowlist_def literals_differ)
  have sent: "PutObjectCommand ?p \<in> set (snd (handler sample_env sample_event))
      \<and> s3_PutObject sample_env ?p = Inr ()"
    by (simp add: sample_run) (simp add: sample_env_def)
  have one: "fst (handler ?G sample_event) = Inr None"
    using completion_values [OF ev key, of ?G] flagged by blast
  have two: "fst (handler sample_env png_event) = Inr None"
    using completion_values [OF ev' key', of sample_env] png by blast
  have "fst (handler sample_env sample_event)
      = Inr (Some (js ''Processed and overwritten '' @ bucket_name ?r @ js ''/''
                   @ js ''photo name.HEIC'' @ js '' (format: jpg)''))"
    using completion_values [OF ev key, of sample_env] sent by blast
  then have three: "fst (handler sample_env sample_event)
      = Inr (Some (js ''Processed and overwritten photos/photo name.HEIC (format: jpg)''))"
    by (simp add: js_append [symmetric])
  from one two three show ?thesis
    by blast
qed

text \<open>
  Claim C8, as stated, fails on three kinds of key: the parser sets trailing slashes
  aside (\<open>photos/\<close> gives \<open>photos\<close>), the directory of a key directly under the
  root is the root itself, so that the separator comes twice (\<open>/a.heic\<close> gives
  \<open>//a.heic\<close>), and an extension that is a lone dot is emptied by the handler
  (\<open>a.\<close> gives \<open>a\<close>).
\<close>

theorem rejoin_counterexample:
  "rejoin (js ''photos/'') = js ''photos'' \<and> js ''photos'' \<noteq> js ''photos/''
   \<and> rejoin (js ''/a.heic'') = js ''//a.heic'' \<and> js ''//a.heic'' \<noteq> js ''/a.heic''
   \<and> rejoin (js ''a.'') = js ''a'' \<and> js ''a'' \<noteq> js ''a.''"
  by (simp add: rejoin_def file_ext_def js_def posix_parse_def parse_scan.simps char_defs slice_def)

text \<open>
  Claim C8, amended. For every decoded key that ends neither with a slash nor with
  a dot, and that is not a single name directly under the root (a leading slash with
  no other slash after it), re-joining the directory (with a separator when it is not
  empty), the base name and the extension (with its dot when it is not empty) gives
  the key back. The empty key is re-joined to itself.
\<close>

theorem rejoin_plain_key:
  assumes "srcKey \<noteq> [] \<Longrightarrow> last srcKey \<noteq> CHAR_FORWARD_SLASH \<and> last srcKey \<noteq> CHAR_DOT"
    and "srcKey \<noteq> [] \<Longrightarrow> hd srcKey = CHAR_FORWARD_SLASH \<Longrightarrow> CHAR_FORWARD_SLASH \<in> set (tl srcKey)"
  shows "rejoin srcKey = srcKey"
proof (cases "srcKey = []")
  case True
  then show ?thesis
    by (simp add: rejoin_def posix_parse_def file_ext_def)
next
  case False
  let ?n = "int (length srcKey)"
  let ?abs = "srcKey ! 0 = CHAR_FORWARD_SLASH"
  let ?start = "if ?abs then 1 else 0 :: int"
  define S where "S = parse_scan srcKey ?start (?n - 1)
      \<lparr>startDot = -1, startPart = 0, endPart = -1, matchedSlash = True, preDotState = 0\<rparr>"
  define noext where "noext \<longleftrightarrow> startDot S = -1 \<or> preDotState S = 0
      \<or> (preDotState S = 1 \<and> startDot S = endPart S - 1 \<and> startDot S = startPart S + 1)"
  from False have hd: "srcKey ! 0 = hd srcKey"
    by (simp add: hd_conv_nth)
  have inner: "\<exists>j. 1 \<le> j \<and> j < ?n \<and> srcKey ! nat j = CHAR_FORWARD_SLASH" if "?abs"
  proof -
    from that hd assms(2) False have "CHAR_FORWARD_SLASH \<in> set (tl srcKey)"
      by simp
    then obtain k where k: "k < length (tl srcKey)" "tl srcKey ! k = CHAR_FORWARD_SLASH"
      by (auto simp: in_set_conv_nth)
    then have "srcKey ! Suc k = CHAR_FORWARD_SLASH"
      by (simp add: nth_tl)
    moreover have "nat (int (Suc k)) = Suc k"
      by simp
    ultimately have "srcKey ! nat (int (Suc k)) = CHAR_FORWARD_SLASH"
      by (simp only:)
    moreover from k(1) have "1 \<le> int (Suc k)" "int (Suc k) < ?n"
      by auto
    ultimately show ?thesis
      by blast
  qed
  have range: "0 \<le> ?start" "?start < ?n"
    using False inner by (auto split: if_splits)
  note scan = scan_of_plain_key [OF False assms(1) [OF False, THEN conjunct1]
      assms(1) [OF False, THEN conjunct2] range, folded S_def]
  have e: "endPart S = ?n"
    by (rule scan(1))
  have sp: "startPart S = 0 \<and> \<not> ?abs
      \<or> 2 \<le> startPart S \<and> startPart S \<le> ?n
        \<and> srcKey ! nat (startPart S - 1) = CHAR_FORWARD_SLASH"
  proof (cases "startPart S = 0")
    case True
    with scan(2) have "\<forall>j. ?start \<le> j \<and> j < ?n \<longrightarrow> srcKey ! nat j \<noteq> CHAR_FORWARD_SLASH"
      by auto
    with inner have "\<not> ?abs"
      by auto
    with True show ?thesis by simp
  next
    case nonzero: False
    with scan(2) have b: "?start < startPart S" "startPart S \<le> ?n"
      "srcKey ! nat (startPart S - 1) = CHAR_FORWARD_SLASH"
      by auto
    have "startPart S \<noteq> 1"
    proof
      assume "startPart S = 1"
      with b show False by (auto split: if_splits)
    qed
    with b show ?thesis
      by (auto split: if_splits)
  qed
  note raw = posix_parse_parts [OF False, folded S_def]
  have parts: "dir (posix_parse srcKey) =
        (if startPart S > 0 then slice srcKey 0 (startPart S - 1) else [])"
    "name (posix_parse srcKey) =
        (if noext then slice srcKey (startPart S) ?n else slice srcKey (startPart S) (startDot S))"
    "ext (posix_parse srcKey) = (if noext then [] else slice srcKey (startDot S) ?n)"
    using sp e raw(1) raw(2,3) [folded noext_def]
    by auto
  have prefix: "(if dir (posix_parse srcKey) = [] then []
      else dir (posix_parse srcKey) @ [CHAR_FORWARD_SLASH]) = take (nat (startPart S)) srcKey"
  proof (cases "startPart S = 0")
    case True
    then show ?thesis by (simp add: parts)
  next
    case nonzero: False
    with sp have b: "2 \<le> startPart S" "startPart S \<le> ?n"
      "srcKey ! nat (startPart S - 1) = CHAR_FORWARD_SLASH"
      by auto
    then have d: "dir (posix_parse srcKey) = take (nat (startPart S - 1)) srcKey"
      by (simp add: parts slice_inside)
    from b have "nat (startPart S - 1) < length srcKey" "0 < nat (startPart S - 1)"
      by auto
    with d have "dir (posix_parse srcKey) \<noteq> []"
      by auto
    moreover have "take (nat (startPart S - 1)) srcKey @ [CHAR_FORWARD_SLASH]
        = take (Suc (nat (startPart S - 1))) srcKey"
      using b \<open>nat (startPart S - 1) < length srcKey\<close>
      by (simp add: take_Suc_conv_app_nth)
    moreover have "Suc (nat (startPart S - 1)) = nat (startPart S)"
      using b by simp
    ultimately show ?thesis
      by (simp add: d)
  qed
  from sp have s_range: "0 \<le> startPart S" "startPart S \<le> ?n"
    by auto
  have suffix: "name (posix_parse srcKey)
      @ (if file_ext srcKey = [] then [] else CHAR_DOT # file_ext srcKey)
      = drop (nat (startPart S)) srcKey"
  proof (cases noext)
    case True
    with s_range show ?thesis
      by (simp add: parts file_ext_def slice_inside)
  next
    case ext: False
    then have "startDot S \<noteq> -1"
      by (simp add: noext_def)
    with scan(3) have sd: "startPart S \<le> startDot S" "startDot S < ?n - 1"
      "srcKey ! nat (startDot S) = CHAR_DOT"
      by auto
    from sd s_range have lt: "nat (startDot S) < length srcKey"
      by auto
    have y: "drop (nat (startDot S)) srcKey = CHAR_DOT # drop (Suc (nat (startDot S))) srcKey"
      using lt sd(3) by (simp add: Cons_nth_drop_Suc [symmetric])
    have "ext (posix_parse srcKey) = drop (nat (startDot S)) srcKey"
      using ext sd s_range by (simp add: parts slice_inside)
    with y have x: "ext (posix_parse srcKey) = CHAR_DOT # drop (Suc (nat (startDot S))) srcKey"
      by simp
    then have f: "file_ext srcKey = drop (Suc (nat (startDot S))) srcKey"
      by (simp add: file_ext_def)
    from sd s_range have "Suc (nat (startDot S)) < length srcKey"
      by auto
    with f have nonempty: "file_ext srcKey \<noteq> []"
      by simp
    have nm: "name (posix_parse srcKey)
        = take (nat (startDot S - startPart S)) (drop (nat (startPart S)) srcKey)"
      using ext sd s_range by (simp add: parts slice_inside)
    have "nat (startDot S - startPart S) + nat (startPart S) = nat (startDot S)"
      using sd s_range by simp
    then have "drop (nat (startDot S - startPart S)) (drop (nat (startPart S)) srcKey)
        = drop (nat (startDot S)) srcKey"
      by simp
    with y f have z: "CHAR_DOT # file_ext srcKey
        = drop (nat (startDot S - startPart S)) (drop (nat (startPart S)) srcKey)"
      by (simp only:)
    from nonempty show ?thesis
      by (simp only: if_False nm z append_take_drop_id)
  qed
  have "rejoin srcKey = take (nat (startPart S)) srcKey @ drop (nat (startPart S)) srcKey"
    unfolding rejoin_def Let_def using prefix suffix by simp
  then show ?thesis
    by simp
qed

theorem rejoin_plain_key_witness:
  "last (js ''dir/photo name.HEIC'') \<noteq> CHAR_FORWARD_SLASH
   \<and> last (js ''dir/photo name.HEIC'') \<noteq> CHAR_DOT
   \<and> hd (js ''dir/photo name.HEIC'') \<noteq> CHAR_FORWARD_SLASH
   \<and> rejoin (js ''dir/photo name.HEIC'') = js ''dir/photo name.HEIC''
   \<and> last (js ''/a/b.heic'') \<noteq> CHAR_FORWARD_SLASH
   \<and> last (js ''/a/b.heic'') \<noteq> CHAR_DOT
   \<and> hd (js ''/a/b.heic'') = CHAR_FORWARD_SLASH
   \<and> CHAR_FORWARD_SLASH \<in> set (tl (js ''/a/b.heic''))
   \<and> rejoin (js ''/a/b.heic'') = js ''/a/b.heic''"
proof -
  have a: "last (js ''dir/photo name.HEIC'') \<noteq> CHAR_FORWARD_SLASH
      \<and> last (js ''dir/photo name.HEIC'') \<noteq> CHAR_DOT"
    and b: "hd (js ''dir/photo name.HEIC'') \<noteq> CHAR_FORWARD_SLASH"
    by (simp_all add: js_def char_defs)
  have c: "last (js ''/a/b.heic'') \<noteq> CHAR_FORWARD_SLASH \<and> last (js ''/a/b.heic'') \<noteq> CHAR_DOT"
    and d: "hd (js ''/a/b.heic'') = CHAR_FORWARD_SLASH"
    and e: "CHAR_FORWARD_SLASH \<in> set (tl (js ''/a/b.heic''))"
    by (simp_all add: js_def char_defs)
  have "rejoin (js ''dir/photo name.HEIC'') = js ''dir/photo name.HEIC''"
    using a b by (intro rejoin_plain_key) simp_all
  moreover have "rejoin (js ''/a/b.heic'') = js ''/a/b.heic''"
    using c e by (intro rejoin_plain_key) simp_all
  ultimately show ?thesis
    using a b c d e by blast
qed



text \<open>
  Claim C10. An event whose \<open>Records\<close> field is absent or is an empty array makes the
  handler throw a \<open>TypeError\<close> before anything is sent to the storage service.
\<close>

theorem missing_records_throw:
  "Records ev = None \<or> Records ev = Some [] \<Longrightarrow> handler E ev = (Inl TypeError, [])"
  by (auto simp: handler_def)

theorem missing_records_throw_witness:
  "handler sample_env \<lparr>Records = None\<rparr> = (Inl TypeError, [])
   \<and> handler sample_env \<lparr>Records = Some []\<rparr> = (Inl TypeError, [])"
  using missing_records_throw [of "\<lparr>Records = None\<rparr>" sample_env]
    missing_records_throw [of "\<lparr>Records = Some []\<rparr>" sample_env]
  by simp

end
